theory Spec2Isabelle
  imports Complex_Main
begin

section \<open>Time and the calendar\<close>

text \<open>
  A naive \<^verbatim>\<open>datetime\<close> is the number of microseconds since 1970-01-01 00:00; the
  operations below raise where the library's range is left.
  \<^verbatim>\<open>weekday()\<close> counts Monday as 0; 1970-01-01 was a Thursday.
\<close>

type_synonym datetime = int

definition us_per_day :: int where
  "us_per_day = 86400000000"

text \<open>
  The exceptions of the model. OverflowError and OutOfBoundsDatetime are the library's
  answers to a date outside the range it can hold.
\<close>

datatype error = ValueError | IOError | OverflowError | OutOfBoundsDatetime

text \<open>
  \<^verbatim>\<open>timedelta(days=d)\<close> raises OverflowError when the magnitude of \<open>d\<close> exceeds
  999999999. A datetime lies between 0001-01-01 00:00:00 and 9999-12-31 23:59:59.999999,
  and subtracting a timedelta raises OverflowError when the result would not.
\<close>

definition timedelta_days :: "int \<Rightarrow> error + int" where
  "timedelta_days d =
     (if - 999999999 \<le> d \<and> d \<le> 999999999 then Inr (d * us_per_day) else Inl OverflowError)"

definition datetime_min :: datetime where
  "datetime_min = - 719162 * us_per_day"

definition datetime_max :: datetime where
  "datetime_max = 2932897 * us_per_day - 1"

definition datetime_sub :: "datetime \<Rightarrow> int \<Rightarrow> error + datetime" where
  "datetime_sub t delta =
     (if datetime_min \<le> t - delta \<and> t - delta \<le> datetime_max then Inr (t - delta)
      else Inl OverflowError)"

definition day_number :: "datetime \<Rightarrow> int" where
  "day_number t = t div us_per_day"

definition weekday :: "datetime \<Rightarrow> int" where
  "weekday t = (day_number t + 3) mod 7"

text \<open>
  \<^verbatim>\<open>pd.date_range(start=s, end=e, freq='D')\<close>: the instants \<open>s\<close>, \<open>s\<close> + 1 day, ... that
  are not after \<open>e\<close>; the time of day of \<open>s\<close> is kept. pandas holds a timestamp as a
  64-bit count of nanoseconds since 1970, so the ends of the range must lie between
  1677-09-21 00:12:43.145225 and 2262-04-11 23:47:16.854775, or OutOfBoundsDatetime is
  raised.
\<close>

definition timestamp_min :: datetime where
  "timestamp_min = - 9223372036854775"

definition timestamp_max :: datetime where
  "timestamp_max = 9223372036854775"

definition within_timestamps :: "datetime \<Rightarrow> bool" where
  "within_timestamps t = (timestamp_min \<le> t \<and> t \<le> timestamp_max)"

definition date_list :: "datetime \<Rightarrow> datetime \<Rightarrow> datetime list" where
  "date_list start stop =
     (if stop < start then []
      else map (\<lambda>k. start + int k * us_per_day) [0..<Suc (nat ((stop - start) div us_per_day))])"

definition pd_date_range :: "datetime \<Rightarrow> datetime \<Rightarrow> error + datetime list" where
  "pd_date_range start stop =
     (if within_timestamps start \<and> within_timestamps stop then Inr (date_list start stop)
      else Inl OutOfBoundsDatetime)"

text \<open>
  \<^verbatim>\<open>strftime('%Y%m%d')\<close>: the civil date of a day number in the proleptic Gregorian
  calendar (the library's conversion, written out), as eight decimal digits.
\<close>

definition civil_from_days :: "int \<Rightarrow> int \<times> int \<times> int" where
  "civil_from_days z0 =
     (let z = z0 + 719468;
          era = z div 146097;
          doe = z - era * 146097;
          yoe = (doe - doe div 1460 + doe div 36524 - doe div 146096) div 365;
          doy = doe - (365 * yoe + yoe div 4 - yoe div 100);
          mp = (5 * doy + 2) div 153;
          d = doy - (153 * mp + 2) div 5 + 1;
          m = (if mp < 10 then mp + 3 else mp - 9);
          y = yoe + era * 400
      in (if m \<le> 2 then y + 1 else y, m, d))"

definition digit :: "int \<Rightarrow> char" where
  "digit n = ''0123456789'' ! nat (n mod 10)"

definition strftime_Ymd :: "datetime \<Rightarrow> string" where
  "strftime_Ymd t =
     (case civil_from_days (day_number t) of (y, m, d) \<Rightarrow>
        [digit (y div 1000), digit (y div 100), digit (y div 10), digit y,
         digit (m div 10), digit m, digit (d div 10), digit d])"

section \<open>Numbers\<close>

text \<open>
  Python floats are modelled by exact reals: the claims about prices depend on their
  order only, which \<open>max\<close>, \<open>min\<close> and rounding keep. \<^verbatim>\<open>round(x, 2)\<close> is the
  multiple of 0.01 nearest to \<open>x\<close>, an exact tie going to the even multiple (the
  builtin's rule for a float and numpy's for its own floats).
\<close>

definition round_half_even :: "real \<Rightarrow> int" where
  "round_half_even y =
     (let f = \<lfloor>y\<rfloor>; d = y - of_int f
      in if d < 1 / 2 then f else if 1 / 2 < d then f + 1 else if even f then f else f + 1)"

definition py_round2 :: "real \<Rightarrow> real" where
  "py_round2 x = of_int (round_half_even (x * 100)) / 100"

section \<open>The random number generator\<close>

text \<open>
  numpy's global generator is a library outside the repository. Its state is a tape of
  draws and a position; every call consumes cells in order. A cell holds what each kind
  of call reads from it: a standard normal variate, a sample of [0, 1), raw bits.
  The theorems below hold for every tape, so nothing is assumed about the values.
\<close>

record draw =
  variate :: real
  sample :: real
  bits :: nat

record rng_state =
  tape :: "nat \<Rightarrow> draw"
  pos :: nat

definition np_normal :: "real \<Rightarrow> real \<Rightarrow> nat \<Rightarrow> rng_state \<Rightarrow> real list \<times> rng_state" where
  "np_normal loc scale n g =
     (map (\<lambda>k. loc + scale * variate (tape g (pos g + k))) [0..<n], g\<lparr>pos := pos g + n\<rparr>)"

definition np_uniform :: "real \<Rightarrow> real \<Rightarrow> rng_state \<Rightarrow> real \<times> rng_state" where
  "np_uniform low high g =
     (low + (high - low) * sample (tape g (pos g)), g\<lparr>pos := pos g + 1\<rparr>)"

text \<open>
  \<^verbatim>\<open>randint(low, high)\<close> returns an integer of the half-open range from \<open>low\<close> to
  \<open>high\<close>, \<open>high\<close> excluded (the call sites pass constants with \<open>low < high\<close>).
\<close>

definition np_randint :: "int \<Rightarrow> int \<Rightarrow> rng_state \<Rightarrow> int \<times> rng_state" where
  "np_randint low high g =
     (low + int (bits (tape g (pos g))) mod (high - low), g\<lparr>pos := pos g + 1\<rparr>)"

section \<open>Data\<close>

record bar =
  Open :: real
  High :: real
  Low :: real
  Close :: real
  Volume :: int

text \<open>A DataFrame: the rows in order, each with its index entry.\<close>

type_synonym dataframe = "(datetime \<times> bar) list"

text \<open>
  \<^verbatim>\<open>pd.DataFrame(data, index=index)\<close> raises ValueError when the number of rows and
  the length of the index differ.
\<close>

definition pd_DataFrame :: "bar list \<Rightarrow> datetime list \<Rightarrow> error + dataframe" where
  "pd_DataFrame data idx =
     (if length data = length idx then Inr (zip idx data) else Inl ValueError)"

section \<open>The environment\<close>

text \<open>
  What a process gets from outside the repository: the interpreter's string hash (salted
  per process), the stream numpy starts from a seed, the provider's answer to the HTTP
  request, and whether the file system accepts a write to a path.
\<close>

record payload =
  error_message :: "string option"
  note_field :: "string option"
  time_series :: "dataframe option"

datatype response = HttpFailure | Json payload

record env =
  str_hash :: "string \<Rightarrow> int"
  mt19937 :: "nat \<Rightarrow> nat \<Rightarrow> draw"
  http_get :: "string \<Rightarrow> string \<Rightarrow> response"
  can_write :: "string \<Rightarrow> bool"

text \<open>
  What changes while the process runs: the clock (\<open>clock w k\<close> is what the \<open>k\<close>-th call
  of \<^verbatim>\<open>datetime.now()\<close> returns), numpy's global generator, the files written, and
  the seconds spent in \<^verbatim>\<open>time.sleep\<close>. Printing is not modelled.
\<close>

record world =
  clock :: "nat \<Rightarrow> datetime"
  reads :: nat
  rng :: rng_state
  files :: "string \<rightharpoonup> dataframe"
  slept :: nat

definition datetime_now :: "world \<Rightarrow> datetime \<times> world" where
  "datetime_now w = (clock w (reads w), w\<lparr>reads := reads w + 1\<rparr>)"

definition np_seed :: "env \<Rightarrow> nat \<Rightarrow> rng_state" where
  "np_seed p s = \<lparr>tape = mt19937 p s, pos = 0\<rparr>"

definition time_sleep :: "nat \<Rightarrow> world \<Rightarrow> world" where
  "time_sleep n w = w\<lparr>slept := slept w + n\<rparr>"

definition to_csv :: "env \<Rightarrow> string \<Rightarrow> dataframe \<Rightarrow> world \<Rightarrow> (error + unit) \<times> world" where
  "to_csv p path df w =
     (if can_write p path then (Inr (), w\<lparr>files := (files w)(path \<mapsto> df)\<rparr>)
      else (Inl IOError, w))"

section \<open>The synthetic generator\<close>

text \<open>The loop over \<^verbatim>\<open>daily_returns[1:]\<close> that appends to \<^verbatim>\<open>prices\<close>.\<close>

fun walk_prices :: "real list \<Rightarrow> real list \<Rightarrow> real list" where
  "walk_prices prices [] = prices"
| "walk_prices prices (ret # rets) =
     (let new_price = last prices * (1 + ret)
      in walk_prices (prices @ [max new_price (1 / 100)]) rets)"

text \<open>One pass of the loop that builds the rows.\<close>

definition make_bar :: "real list \<Rightarrow> nat \<Rightarrow> real \<Rightarrow> rng_state \<Rightarrow> bar \<times> rng_state" where
  "make_bar prices i price g0 =
     (let volatility = price * (2 / 100);
          (u1, g1) = np_uniform 0 volatility g0;
          high = price + u1;
          (u2, g2) = np_uniform 0 volatility g1;
          low = price - u2;
          open_price = (if 0 < i then prices ! (i - 1) else price);
          high = max (max high open_price) price;
          low = min (min low open_price) price;
          (volume, g3) = np_randint 1000000 10000000 g2
      in (\<lparr>Open = py_round2 open_price, High = py_round2 high, Low = py_round2 low,
           Close = py_round2 price, Volume = volume\<rparr>, g3))"

fun ohlc_loop :: "real list \<Rightarrow> (nat \<times> datetime \<times> real) list \<Rightarrow> rng_state \<Rightarrow> bar list \<times> rng_state" where
  "ohlc_loop prices [] g = ([], g)"
| "ohlc_loop prices ((i, date, price) # rest) g =
     (let (b, g1) = make_bar prices i price g;
          (bs, g2) = ohlc_loop prices rest g1
      in (b # bs, g2))"

definition enumerate_zip :: "datetime list \<Rightarrow> real list \<Rightarrow> (nat \<times> datetime \<times> real) list" where
  "enumerate_zip dates prices = zip [0..<length dates] (zip dates prices)"

text \<open>
  The part both generators share after the dates are known and the generator is seeded:
  returns, prices, rows, frame.
\<close>

definition build_frame :: "real \<Rightarrow> datetime list \<Rightarrow> rng_state \<Rightarrow> (error + dataframe) \<times> rng_state" where
  "build_frame base_price date_range g0 =
     (let (daily_returns, g1) = np_normal (5 / 10000) (2 / 100) (length date_range) g0;
          prices = walk_prices [base_price] (drop 1 daily_returns);
          (data, g2) = ohlc_loop prices (enumerate_zip date_range prices) g1
      in (pd_DataFrame data date_range, g2))"

definition weekdays_only :: "datetime list \<Rightarrow> datetime list" where
  "weekdays_only ds = filter (\<lambda>d. weekday d < 5) ds"

text \<open>
  \<^verbatim>\<open>RobustDataFetcher.generate_sample_data(symbol, days)\<close>: the seed is the
  interpreter's hash of the symbol modulo 1000 (Python's \<open>%\<close> with a positive modulus is
  never negative, as \<open>mod\<close> on \<open>int\<close>). The dates are computed before the generator is
  seeded, so a date out of range leaves the generator as it was.
\<close>

definition Robust_generate_sample_data :: "env \<Rightarrow> string \<Rightarrow> int \<Rightarrow> world \<Rightarrow> (error + dataframe) \<times> world" where
  "Robust_generate_sample_data p symbol days w0 =
     (let (t1, w1) = datetime_now w0
      in case timedelta_days days of
           Inl e \<Rightarrow> (Inl e, w1)
         | Inr delta \<Rightarrow>
             (case datetime_sub t1 delta of
                Inl e \<Rightarrow> (Inl e, w1)
              | Inr start_date \<Rightarrow>
                  (let (end_date, w2) = datetime_now w1
                   in case pd_date_range start_date end_date of
                        Inl e \<Rightarrow> (Inl e, w2)
                      | Inr all_dates \<Rightarrow>
                          (let date_range = weekdays_only all_dates;
                               g0 = np_seed p (nat (str_hash p symbol mod 1000));
                               base_price = (if symbol = ''SPY'' then 100 else 150);
                               (df, g) = build_frame base_price date_range g0
                           in (df, w2\<lparr>rng := g\<rparr>)))))"

section \<open>Fetchers\<close>

record fetcher =
  data_dir :: string
  api_key :: string

text \<open>
  The constructors. \<^verbatim>\<open>api_key or 'XOLA7URKC6PQJEXY'\<close> takes the default for None and
  for the empty string. The directory they create belongs to the file system, which the
  model sees through \<open>can_write\<close> only.
\<close>

definition RobustDataFetcher :: "string \<Rightarrow> string option \<Rightarrow> fetcher" where
  "RobustDataFetcher dir key =
     \<lparr>data_dir = dir,
      api_key = (case key of None \<Rightarrow> ''XOLA7URKC6PQJEXY''
                 | Some k \<Rightarrow> if k = [] then ''XOLA7URKC6PQJEXY'' else k)\<rparr>"

definition SampleDataFetcher :: "string \<Rightarrow> fetcher" where
  "SampleDataFetcher dir = \<lparr>data_dir = dir, api_key = []\<rparr>"

text \<open>Python's \<^verbatim>\<open>needle in text\<close> on strings.\<close>

fun str_in :: "string \<Rightarrow> string \<Rightarrow> bool" where
  "str_in needle [] = (needle = [])"
| "str_in needle (c # cs) = (take (length needle) (c # cs) = needle \<or> str_in needle cs)"

text \<open>
  \<^verbatim>\<open>RobustDataFetcher.fetch_real_data\<close>. Every exception inside it is caught and
  turned into None; in the model the request and the decoding of its body fail as
  \<open>HttpFailure\<close>, the decoded time series arrives as a frame, and an overflow of the
  cutoff date gives None as every other exception does.
\<close>

definition fetch_real_data :: "env \<Rightarrow> fetcher \<Rightarrow> string \<Rightarrow> string \<Rightarrow> world \<Rightarrow> dataframe option \<times> world" where
  "fetch_real_data p self symbol period w =
     (case http_get p symbol (api_key self) of
        HttpFailure \<Rightarrow> (None, w)
      | Json data \<Rightarrow>
          if error_message data \<noteq> None then (None, w)
          else if note_field data \<noteq> None then (None, w)
          else (case time_series data of
                  None \<Rightarrow> (None, w)
                | Some ts \<Rightarrow>
                    if ts = [] then (None, w)
                    else (let sorted_df = sort_key fst ts
                          in if period = ''1y''
                             then (let (t, w1) = datetime_now w
                                   in case timedelta_days 365 of
                                        Inl e \<Rightarrow> (None, w1)
                                      | Inr delta \<Rightarrow>
                                          (case datetime_sub t delta of
                                             Inl e \<Rightarrow> (None, w1)
                                           | Inr cutoff_date \<Rightarrow>
                                               (let df = filter (\<lambda>r. cutoff_date \<le> fst r) sorted_df
                                                in if df = [] then (None, w1) else (Some df, w1))))
                             else (if sorted_df = [] then (None, w) else (Some sorted_df, w)))))"

text \<open>\<^verbatim>\<open>RobustDataFetcher.fetch_data(symbol, period, fallback_to_sample)\<close>.\<close>

definition Robust_fetch_data :: "env \<Rightarrow> fetcher \<Rightarrow> string \<Rightarrow> string \<Rightarrow> bool \<Rightarrow> world \<Rightarrow> (error + dataframe option) \<times> world" where
  "Robust_fetch_data p self symbol period fallback_to_sample w0 =
     (let (df0, w1) = fetch_real_data p self symbol period w0;
          (r, w2) =
            (if df0 = None \<and> fallback_to_sample
             then (case Robust_generate_sample_data p symbol 252 w1 of
                     (Inl e, w) \<Rightarrow> (Inl e, w)
                   | (Inr d, w) \<Rightarrow> (Inr (Some d), w))
             else (Inr df0, w1))
      in case r of
           Inl e \<Rightarrow> (Inl e, w2)
         | Inr None \<Rightarrow> (Inr None, w2)
         | Inr (Some df) \<Rightarrow>
             (let (t, w3) = datetime_now w2;
                  filename = data_dir self @ ''/'' @ symbol @ ''_'' @ strftime_Ymd t @ ''.csv''
              in case to_csv p filename df w3 of
                   (Inl e, w4) \<Rightarrow> (Inl e, w4)
                 | (Inr u, w4) \<Rightarrow>
                     (Inr (Some df),
                      if api_key self \<noteq> [] \<and> str_in ''XOLA7URKC6PQJEXY'' (api_key self)
                      then time_sleep 12 w4 else w4)))"



text \<open>
  \<^verbatim>\<open>SampleDataFetcher.generate_sample_data(symbol, start_date, end_date, days)\<close>: the
  seed is the constant 42, the base price the constant 100, and the frame is written to
  the \<^verbatim>\<open>_sample_\<close> file before it is returned.
\<close>

definition Sample_generate_sample_data :: "env \<Rightarrow> fetcher \<Rightarrow> string \<Rightarrow> datetime option \<Rightarrow> datetime option \<Rightarrow> int \<Rightarrow> world \<Rightarrow> (error + dataframe) \<times> world" where
  "Sample_generate_sample_data p self symbol start_arg end_arg days w0 =
     (let (start_result, w1) =
            (case start_arg of
               None \<Rightarrow>
                 (let (t, w) = datetime_now w0
                  in (case timedelta_days days of
                        Inl e \<Rightarrow> Inl e
                      | Inr delta \<Rightarrow> datetime_sub t delta, w))
             | Some s \<Rightarrow> (Inr s, w0))
      in case start_result of
           Inl e \<Rightarrow> (Inl e, w1)
         | Inr start_date \<Rightarrow>
             (let (end_date, w2) =
                    (case end_arg of None \<Rightarrow> datetime_now w1 | Some e \<Rightarrow> (e, w1))
              in case pd_date_range start_date end_date of
                   Inl e \<Rightarrow> (Inl e, w2)
                 | Inr all_dates \<Rightarrow>
                     (let date_range = weekdays_only all_dates;
                          g0 = np_seed p 42;
                          base_price = 100;
                          (r, g) = build_frame base_price date_range g0;
                          w3 = w2\<lparr>rng := g\<rparr>
                      in case r of
                           Inl e \<Rightarrow> (Inl e, w3)
                         | Inr df \<Rightarrow>
                             (let (t, w4) = datetime_now w3;
                                  filename = data_dir self @ ''/'' @ symbol @ ''_sample_''
                                               @ strftime_Ymd t @ ''.csv''
                              in case to_csv p filename df w4 of
                                   (Inl e, w5) \<Rightarrow> (Inl e, w5)
                                 | (Inr u, w5) \<Rightarrow> (Inr df, w5)))))"

section \<open>Properties of frames and windows\<close>

text \<open>The invariant of a price bar: the low is the least and the high the greatest price.\<close>

definition ohlc_ok :: "bar \<Rightarrow> bool" where
  "ohlc_ok b = (Low b \<le> Open b \<and> Open b \<le> High b \<and> Low b \<le> Close b \<and> Close b \<le> High b)"

text \<open>What the generators promise of every row they build.\<close>

definition synthetic_bar :: "bar \<Rightarrow> bool" where
  "synthetic_bar b = (ohlc_ok b \<and> 1000000 \<le> Volume b \<and> Volume b < 10000000 \<and> 1 / 100 \<le> Close b)"

text \<open>
  The dates \<^verbatim>\<open>RobustDataFetcher.generate_sample_data\<close> keeps, from the two clock
  readings it makes, and those of \<^verbatim>\<open>SampleDataFetcher.generate_sample_data\<close>, which
  reads the clock only for an argument left at None.
\<close>

definition robust_dates :: "int \<Rightarrow> world \<Rightarrow> datetime list" where
  "robust_dates days w =
     weekdays_only (date_list (clock w (reads w) - days * us_per_day) (clock w (Suc (reads w))))"

text \<open>
  A lookback the libraries can hold: \<open>days\<close> fits a timedelta, and the first instant of
  the window, \<open>days\<close> days before the first clock reading, and the second clock reading
  are timestamps of pandas (and so datetimes).
\<close>

definition lookback_supported :: "int \<Rightarrow> world \<Rightarrow> bool" where
  "lookback_supported days w =
     (- 999999999 \<le> days \<and> days \<le> 999999999
      \<and> within_timestamps (clock w (reads w) - days * us_per_day)
      \<and> within_timestamps (clock w (Suc (reads w))))"


definition sample_reads :: "datetime option \<Rightarrow> datetime option \<Rightarrow> nat" where
  "sample_reads sa ea = (if sa = None then 1 else 0) + (if ea = None then 1 else 0)"

definition sample_dates :: "datetime option \<Rightarrow> datetime option \<Rightarrow> int \<Rightarrow> world \<Rightarrow> datetime list" where
  "sample_dates sa ea days w =
     weekdays_only (date_list
       (case sa of None \<Rightarrow> clock w (reads w) - days * us_per_day | Some s \<Rightarrow> s)
       (case ea of None \<Rightarrow> clock w (reads w + (if sa = None then 1 else 0)) | Some e \<Rightarrow> e))"

definition sample_path :: "fetcher \<Rightarrow> string \<Rightarrow> datetime \<Rightarrow> string" where
  "sample_path self symbol t = data_dir self @ ''/'' @ symbol @ ''_sample_'' @ strftime_Ymd t @ ''.csv''"

definition robust_path :: "fetcher \<Rightarrow> string \<Rightarrow> datetime \<Rightarrow> string" where
  "robust_path self symbol t = data_dir self @ ''/'' @ symbol @ ''_'' @ strftime_Ymd t @ ''.csv''"

text \<open>
  The calendar window of a lookback: the day numbers from \<open>today - days\<close> to \<open>today\<close>,
  both included, and how many of them are weekdays.
\<close>

definition is_weekday_number :: "int \<Rightarrow> bool" where
  "is_weekday_number d = ((d + 3) mod 7 < 5)"

definition weekday_count :: "int \<Rightarrow> int \<Rightarrow> nat" where
  "weekday_count today days = length (filter is_weekday_number [today - days..today])"

section \<open>Example processes\<close>

text \<open>
  Values of the builtin \<^verbatim>\<open>hash\<close> in CPython 3.11 started with PYTHONHASHSEED=1, with
  PYTHONHASHSEED=2 and with PYTHONHASHSEED=340, for the symbols used below (any other
  string is mapped to 0 here).
\<close>

definition cpython_hash_1 :: "string \<Rightarrow> int" where
  "cpython_hash_1 s =
     (if s = ''SPY'' then - 7513600043744558726
      else if s = ''AAPL'' then - 5469091186822706111
      else if s = ''MSFT'' then - 2407078429534678988
      else if s = ''XYZ'' then - 256709832594502748 else 0)"

definition cpython_hash_2 :: "string \<Rightarrow> int" where
  "cpython_hash_2 s =
     (if s = ''SPY'' then 1345420349083003361
      else if s = ''AAPL'' then - 4933605147897620455
      else if s = ''MSFT'' then - 6187389004538245490
      else if s = ''XYZ'' then - 7525810321222111226 else 0)"

definition cpython_hash_340 :: "string \<Rightarrow> int" where
  "cpython_hash_340 s =
     (if s = ''AAPL'' then 4847453992651204275
      else if s = ''MSFT'' then - 281697527558821725 else 0)"

text \<open>
  A stand-in for numpy's generator with draws inside the documented ranges, a provider
  that never answers, and a file system that accepts every write.
\<close>

definition toy_tape :: "nat \<Rightarrow> nat \<Rightarrow> draw" where
  "toy_tape s k = \<lparr>variate = real (s mod 3) - 499 / 500, sample = 1 / 2, bits = s + k\<rparr>"

definition ex_env :: "(string \<Rightarrow> int) \<Rightarrow> env" where
  "ex_env h = \<lparr>str_hash = h, mt19937 = toy_tape, http_get = (\<lambda>s k. HttpFailure),
               can_write = (\<lambda>path. True)\<rparr>"

text \<open>A process started at \<open>t\<close> whose clock advances one microsecond per reading.\<close>

definition ex_world :: "int \<Rightarrow> world" where
  "ex_world t = \<lparr>clock = (\<lambda>k. t + int k), reads = 0, rng = \<lparr>tape = toy_tape 0, pos = 0\<rparr>,
                files = Map.empty, slept = 0\<rparr>"

text \<open>Noon of Saturday 2024-06-01, Sunday 2024-06-02 and Tuesday 2024-06-04.\<close>

definition saturday_noon :: datetime where
  "saturday_noon = 19875 * us_per_day + 43200000000"


definition tuesday_noon :: datetime where
  "tuesday_noon = 19878 * us_per_day + 43200000000"

text \<open>The frame the example process generates for AAPL with a lookback of 2 days on that Tuesday.\<close>

definition tuesday_bar :: bar where
  "tuesday_bar = \<lparr>Open = 150, High = 7579 / 50, Low = 7429 / 50, Close = 3752 / 25,
                   Volume = 1000896\<rparr>"

definition tuesday_frame :: dataframe where
  "tuesday_frame =
     [(1717416000000000,
       \<lparr>Open = 150, High = 303 / 2, Low = 297 / 2, Close = 150, Volume = 1000893\<rparr>),
      (1717502400000000, tuesday_bar)]"

text \<open>The pause \<^verbatim>\<open>fetch_data\<close> makes after a save when the key contains the shared key.\<close>

definition rate_limit :: "fetcher \<Rightarrow> world \<Rightarrow> world" where
  "rate_limit self w =
     (if api_key self \<noteq> [] \<and> str_in ''XOLA7URKC6PQJEXY'' (api_key self) then time_sleep 12 w else w)"


definition client_returns_null :: "env \<Rightarrow> fetcher \<Rightarrow> string \<Rightarrow> string \<Rightarrow> bool" where
  "client_returns_null p self symbol period = (\<forall>w. fst (fetch_real_data p self symbol period w) = None)"


text \<open>The fetchers of the examples, on the default directory and key.\<close>

definition ex_fetcher :: fetcher where
  "ex_fetcher = RobustDataFetcher ''data'' None"

section \<open>The rows of a generated frame\<close>

lemma round_half_even_mono: "x \<le> y \<Longrightarrow> round_half_even x \<le> round_half_even y"
proof -
  assume xy: "x \<le> y"
  have fl: "\<lfloor>x\<rfloor> \<le> \<lfloor>y\<rfloor>" using xy by (rule floor_mono)
  have lo: "\<And>z. \<lfloor>z\<rfloor> \<le> round_half_even z" by (simp add: round_half_even_def Let_def)
  have hi: "\<And>z. round_half_even z \<le> \<lfloor>z\<rfloor> + 1" by (simp add: round_half_even_def Let_def)
  show ?thesis
  proof (cases "\<lfloor>x\<rfloor> = \<lfloor>y\<rfloor>")
    case True
    then show ?thesis using xy by (auto simp: round_half_even_def Let_def)
  next
    case False
    then have "\<lfloor>x\<rfloor> + 1 \<le> \<lfloor>y\<rfloor>" using fl by linarith
    then show ?thesis using lo [of y] hi [of x] by linarith
  qed
qed

lemma py_round2_mono: "x \<le> y \<Longrightarrow> py_round2 x \<le> py_round2 y"
  by (simp add: py_round2_def round_half_even_mono divide_right_mono)

lemma py_round2_cent: "py_round2 (1 / 100) = 1 / 100"
  by (simp add: py_round2_def round_half_even_def)

lemma make_bar_shape:
  "\<exists>h l v g3. make_bar prices i price g =
     (\<lparr>Open = py_round2 (if 0 < i then prices ! (i - 1) else price),
       High = py_round2 (max (max h (if 0 < i then prices ! (i - 1) else price)) price),
       Low = py_round2 (min (min l (if 0 < i then prices ! (i - 1) else price)) price),
       Close = py_round2 price,
       Volume = v\<rparr>, g3) \<and> 1000000 \<le> v \<and> v < 10000000"
proof -
  obtain u1 g1 where a: "np_uniform 0 (price * (2 / 100)) g = (u1, g1)"
    by (cases "np_uniform 0 (price * (2 / 100)) g")
  obtain u2 g2 where b: "np_uniform 0 (price * (2 / 100)) g1 = (u2, g2)"
    by (cases "np_uniform 0 (price * (2 / 100)) g1")
  obtain v g3 where c: "np_randint 1000000 10000000 g2 = (v, g3)"
    by (cases "np_randint 1000000 10000000 g2")
  have v: "1000000 \<le> v \<and> v < 10000000"
    using c by (auto simp: np_randint_def)
  have "make_bar prices i price g =
     (\<lparr>Open = py_round2 (if 0 < i then prices ! (i - 1) else price),
       High = py_round2 (max (max (price + u1) (if 0 < i then prices ! (i - 1) else price)) price),
       Low = py_round2 (min (min (price - u2) (if 0 < i then prices ! (i - 1) else price)) price),
       Close = py_round2 price,
       Volume = v\<rparr>, g3)"
    unfolding make_bar_def Let_def a b c prod.case by (rule refl)
  then show ?thesis using v by blast
qed

lemma make_bar_Close: "Close (fst (make_bar prices i price g)) = py_round2 price"
  using make_bar_shape [of prices i price g] by auto

lemma make_bar_ohlc: "ohlc_ok (fst (make_bar prices i price g))"
proof -
  define op where "op = (if 0 < i then prices ! (i - 1) else price)"
  obtain h l v g3 where s: "make_bar prices i price g =
     (\<lparr>Open = py_round2 op, High = py_round2 (max (max h op) price),
       Low = py_round2 (min (min l op) price), Close = py_round2 price, Volume = v\<rparr>, g3)"
    using make_bar_shape [of prices i price g] unfolding op_def by blast
  have "min (min l op) price \<le> op" "op \<le> max (max h op) price"
       "min (min l op) price \<le> price" "price \<le> max (max h op) price"
    by simp_all
  then show ?thesis unfolding s ohlc_ok_def by (simp add: py_round2_mono)
qed

lemma make_bar_Volume:
  "1000000 \<le> Volume (fst (make_bar prices i price g)) \<and> Volume (fst (make_bar prices i price g)) < 10000000"
  using make_bar_shape [of prices i price g] by auto

lemma ohlc_loop_set:
  "b \<in> set (fst (ohlc_loop prices items g)) \<Longrightarrow>
   \<exists>i d price g'. (i, d, price) \<in> set items \<and> b = fst (make_bar prices i price g')"
proof (induction prices items g rule: ohlc_loop.induct)
  case (1 prices g)
  then show ?case by simp
next
  case (2 prices i date price rest g)
  obtain b0 g1 where m: "make_bar prices i price g = (b0, g1)" by (cases "make_bar prices i price g")
  obtain bs g2 where l: "ohlc_loop prices rest g1 = (bs, g2)" by (cases "ohlc_loop prices rest g1")
  from "2.prems" m l have "b = b0 \<or> b \<in> set bs" by simp
  then show ?case
  proof
    assume "b = b0"
    then have "b = fst (make_bar prices i price g)" using m by simp
    then show ?thesis by auto
  next
    assume "b \<in> set bs"
    then have "b \<in> set (fst (ohlc_loop prices rest g1))" using l by simp
    from "2.IH" [OF m [symmetric] refl this] show ?thesis by auto
  qed
qed

lemma walk_prices_length: "length (walk_prices prices rets) = length prices + length rets"
  by (induction prices rets rule: walk_prices.induct) (simp_all add: Let_def)

lemma enumerate_zip_price:
  "(i, d, price) \<in> set (enumerate_zip dates prices) \<Longrightarrow> price \<in> set prices"
  unfolding enumerate_zip_def by (auto dest!: set_zip_rightD)

lemma walk_prices_floor:
  "(\<And>x. x \<in> set prices \<Longrightarrow> 1 / 100 \<le> x) \<Longrightarrow> x \<in> set (walk_prices prices rets) \<Longrightarrow> 1 / 100 \<le> x"
proof (induction prices rets rule: walk_prices.induct)
  case (1 prices)
  then show ?case by simp
next
  case (2 prices ret rets)
  define p where "p = max (last prices * (1 + ret)) (1 / 100)"
  have p: "1 / 100 \<le> p" unfolding p_def by (rule max.cobounded2)
  have mem: "x \<in> set (walk_prices (prices @ [p]) rets)"
    using "2.prems"(2) unfolding p_def by (simp add: Let_def)
  have "1 / 100 \<le> y" if "y \<in> set (prices @ [p])" for y
  proof -
    from that have "y \<in> set prices \<or> y = p" by auto
    then show ?thesis using "2.prems"(1) p by blast
  qed
  then show ?case using "2.IH" [OF refl, folded p_def] mem by blast
qed

lemma ohlc_loop_length: "length (fst (ohlc_loop prices items g)) = length items"
proof (induction prices items g rule: ohlc_loop.induct)
  case (1 prices g)
  then show ?case by simp
next
  case (2 prices i date price rest g)
  obtain b0 g1 where m: "make_bar prices i price g = (b0, g1)" by (cases "make_bar prices i price g")
  obtain bs g2 where l: "ohlc_loop prices rest g1 = (bs, g2)" by (cases "ohlc_loop prices rest g1")
  have "length (fst (ohlc_loop prices rest g1)) = length rest"
    by (rule "2.IH" [OF m [symmetric] refl])
  then show ?case using m l by simp
qed

lemma build_frame_ok:
  "\<exists>data g2. build_frame base dates g = (Inr (zip dates data), g2) \<and> length data = length dates
     \<and> (\<forall>b\<in>set data. ohlc_ok b \<and> 1000000 \<le> Volume b \<and> Volume b < 10000000
           \<and> (1 / 100 \<le> base \<longrightarrow> 1 / 100 \<le> Close b))"
proof -
  obtain rets g1 where n: "np_normal (5 / 10000) (2 / 100) (length dates) g = (rets, g1)"
    by (cases "np_normal (5 / 10000) (2 / 100) (length dates) g")
  define prices where "prices = walk_prices [base] (drop 1 rets)"
  obtain data g2 where l: "ohlc_loop prices (enumerate_zip dates prices) g1 = (data, g2)"
    by (cases "ohlc_loop prices (enumerate_zip dates prices) g1")
  have lr: "length rets = length dates" using n by (auto simp: np_normal_def)
  have lp: "length prices = max 1 (length dates)"
    unfolding prices_def walk_prices_length using lr by simp
  have ld: "length data = length dates"
    using ohlc_loop_length [of prices "enumerate_zip dates prices" g1] l lp
    by (simp add: enumerate_zip_def)
  have bf: "build_frame base dates g = (Inr (zip dates data), g2)"
    unfolding build_frame_def Let_def n prod.case prices_def [symmetric] l pd_DataFrame_def
    using ld by simp
  have pf: "1 / 100 \<le> x" if "1 / 100 \<le> base" "x \<in> set prices" for x
    using that(2) unfolding prices_def by (rule walk_prices_floor [rotated]) (use that(1) in simp)
  have "ohlc_ok b \<and> 1000000 \<le> Volume b \<and> Volume b < 10000000 \<and> (1 / 100 \<le> base \<longrightarrow> 1 / 100 \<le> Close b)"
    if "b \<in> set data" for b
  proof -
    from that l have "b \<in> set (fst (ohlc_loop prices (enumerate_zip dates prices) g1))" by simp
    from ohlc_loop_set [OF this] obtain i d price g' where
      mem: "(i, d, price) \<in> set (enumerate_zip dates prices)" and b: "b = fst (make_bar prices i price g')"
      by blast
    have pin: "price \<in> set prices" using mem by (rule enumerate_zip_price)
    have "1 / 100 \<le> Close b" if "1 / 100 \<le> base"
    proof -
      have "1 / 100 \<le> price" using pf [OF that pin] .
      then have "py_round2 (1 / 100) \<le> py_round2 price" by (rule py_round2_mono)
      then show ?thesis unfolding b make_bar_Close py_round2_cent .
    qed
    then show ?thesis using make_bar_ohlc [of prices i price g'] make_bar_Volume [of prices i price g']
      unfolding b by blast
  qed
  then show ?thesis using bf ld by blast
qed

lemma build_frame_synthetic:
  assumes "1 / 100 \<le> base"
  shows "\<exists>data g2. build_frame base dates g = (Inr (zip dates data), g2) \<and> length data = length dates
     \<and> (\<forall>b\<in>set data. synthetic_bar b)"
  using build_frame_ok [of base dates g] assms unfolding synthetic_bar_def by blast

lemma timestamps_are_datetimes:
  "within_timestamps t \<Longrightarrow> datetime_min \<le> t \<and> t \<le> datetime_max"
  by (simp add: within_timestamps_def timestamp_min_def timestamp_max_def datetime_min_def
      datetime_max_def us_per_day_def)

lemma lookback_supported_window:
  assumes "lookback_supported days w"
  shows "timedelta_days days = Inr (days * us_per_day)"
    and "datetime_sub (clock w (reads w)) (days * us_per_day)
         = Inr (clock w (reads w) - days * us_per_day)"
    and "pd_date_range (clock w (reads w) - days * us_per_day) (clock w (Suc (reads w)))
         = Inr (date_list (clock w (reads w) - days * us_per_day) (clock w (Suc (reads w))))"
  using assms timestamps_are_datetimes [of "clock w (reads w) - days * us_per_day"]
  by (simp_all add: lookback_supported_def timedelta_days_def datetime_sub_def pd_date_range_def)

lemma Robust_generate_frame:
  assumes "lookback_supported days w"
  shows "\<exists>data g. Robust_generate_sample_data p symbol days w =
       (Inr (zip (robust_dates days w) data), w\<lparr>reads := reads w + 2, rng := g\<rparr>)
     \<and> length data = length (robust_dates days w) \<and> (\<forall>b\<in>set data. synthetic_bar b)"
proof -
  define base :: real where "base = (if symbol = ''SPY'' then 100 else 150)"
  have "1 / 100 \<le> base" by (simp add: base_def)
  from build_frame_synthetic [OF this, of "robust_dates days w" "np_seed p (nat (str_hash p symbol mod 1000))"]
  obtain data g where bf: "build_frame base (robust_dates days w) (np_seed p (nat (str_hash p symbol mod 1000)))
       = (Inr (zip (robust_dates days w) data), g)"
    and len: "length data = length (robust_dates days w)" and ok: "\<forall>b\<in>set data. synthetic_bar b"
    by blast
  have "Robust_generate_sample_data p symbol days w =
       (Inr (zip (robust_dates days w) data), w\<lparr>reads := reads w + 2, rng := g\<rparr>)"
    unfolding Robust_generate_sample_data_def datetime_now_def Let_def prod.case
    using bf lookback_supported_window [OF assms] unfolding robust_dates_def base_def by simp
  then show ?thesis using len ok by blast
qed

lemma Robust_generate_unsupported:
  assumes "\<not> lookback_supported days w"
  shows "isl (fst (Robust_generate_sample_data p symbol days w))"
    and "rng (snd (Robust_generate_sample_data p symbol days w)) = rng w"
    and "files (snd (Robust_generate_sample_data p symbol days w)) = files w"
    and "fst (Robust_generate_sample_data p symbol days w) = Inl OverflowError
         \<or> fst (Robust_generate_sample_data p symbol days w) = Inl OutOfBoundsDatetime"
proof -
  have c: "timedelta_days days = Inl OverflowError
     \<or> (timedelta_days days = Inr (days * us_per_day)
         \<and> datetime_sub (clock w (reads w)) (days * us_per_day) = Inl OverflowError)
     \<or> (timedelta_days days = Inr (days * us_per_day)
         \<and> datetime_sub (clock w (reads w)) (days * us_per_day)
             = Inr (clock w (reads w) - days * us_per_day)
         \<and> pd_date_range (clock w (reads w) - days * us_per_day) (clock w (Suc (reads w)))
             = Inl OutOfBoundsDatetime)"
    using assms
    by (auto simp: lookback_supported_def timedelta_days_def datetime_sub_def pd_date_range_def)
  then show "isl (fst (Robust_generate_sample_data p symbol days w))"
    unfolding Robust_generate_sample_data_def datetime_now_def Let_def prod.case by auto
  from c show "rng (snd (Robust_generate_sample_data p symbol days w)) = rng w"
    unfolding Robust_generate_sample_data_def datetime_now_def Let_def prod.case by auto
  from c show "files (snd (Robust_generate_sample_data p symbol days w)) = files w"
    unfolding Robust_generate_sample_data_def datetime_now_def Let_def prod.case by auto
  from c show "fst (Robust_generate_sample_data p symbol days w) = Inl OverflowError
         \<or> fst (Robust_generate_sample_data p symbol days w) = Inl OutOfBoundsDatetime"
    unfolding Robust_generate_sample_data_def datetime_now_def Let_def prod.case by auto
qed

lemma Robust_generate_Inr:
  "fst (Robust_generate_sample_data p symbol days w) = Inr df \<Longrightarrow> lookback_supported days w"
  using Robust_generate_unsupported(1) [of days w p symbol] by auto

lemma Sample_generate_Inr:
  assumes "fst (Sample_generate_sample_data p self symbol sa ea days w) = Inr df"
  shows "\<exists>data. df = zip (sample_dates sa ea days w) data \<and> (\<forall>b\<in>set data. synthetic_bar b)"
proof -
  have "(1::real) / 100 \<le> 100" by simp
  from build_frame_synthetic [OF this, of "sample_dates sa ea days w" "np_seed p 42"]
  obtain data g where bf: "build_frame 100 (sample_dates sa ea days w) (np_seed p 42)
       = (Inr (zip (sample_dates sa ea days w) data), g)"
    and ok: "\<forall>b\<in>set data. synthetic_bar b"
    by blast
  have "df = zip (sample_dates sa ea days w) data"
  proof (cases sa; cases ea)
    assume "sa = None" "ea = None"
    then show ?thesis
      using assms bf unfolding Sample_generate_sample_data_def sample_dates_def
      by (simp add: datetime_now_def to_csv_def Let_def timedelta_days_def datetime_sub_def
          pd_date_range_def split: if_splits)
  next
    fix e assume "sa = None" "ea = Some e"
    then show ?thesis
      using assms bf unfolding Sample_generate_sample_data_def sample_dates_def
      by (simp add: datetime_now_def to_csv_def Let_def timedelta_days_def datetime_sub_def
          pd_date_range_def split: if_splits)
  next
    fix s assume "sa = Some s" "ea = None"
    then show ?thesis
      using assms bf unfolding Sample_generate_sample_data_def sample_dates_def
      by (simp add: datetime_now_def to_csv_def Let_def pd_date_range_def split: if_splits)
  next
    fix s e assume "sa = Some s" "ea = Some e"
    then show ?thesis
      using assms bf unfolding Sample_generate_sample_data_def sample_dates_def
      by (simp add: datetime_now_def to_csv_def Let_def pd_date_range_def split: if_splits)
  qed
  then show ?thesis using ok by blast
qed


lemma upto_as_map: "[a..a + int n] = map (\<lambda>k. a + int k) [0..<Suc n]"
proof (induction n)
  case 0
  then show ?case by simp
next
  case (Suc n)
  have "[a..a + int (Suc n)] = [a..a + int n] @ [a + int (Suc n)]"
    using upto_rec2 [of a "a + int (Suc n)"] by (simp add: add.commute add.left_commute)
  then show ?case using Suc by simp
qed

lemma day_number_shift: "day_number (t + m * us_per_day) = day_number t + m"
  by (simp add: day_number_def us_per_day_def)

lemma weekday_shift: "(weekday (t - days * us_per_day + int k * us_per_day) < 5)
   = is_weekday_number (day_number t - days + int k)"
proof -
  have eq: "t - days * us_per_day + int k * us_per_day = t + (int k - days) * us_per_day"
    by (simp add: algebra_simps)
  have dn: "day_number (t - days * us_per_day + int k * us_per_day) = day_number t + (int k - days)"
    unfolding eq by (rule day_number_shift)
  have a: "day_number t + (int k - days) + 3 = day_number t - days + int k + 3" by simp
  show ?thesis unfolding weekday_def is_weekday_number_def dn a by (rule refl)
qed

lemma date_list_window:
  assumes "0 \<le> days" "t1 \<le> t2" "t2 < t1 + us_per_day"
  shows "date_list (t1 - days * us_per_day) t2
         = map (\<lambda>k. t1 - days * us_per_day + int k * us_per_day) [0..<Suc (nat days)]"
proof -
  have pos: "0 < us_per_day" by (simp add: us_per_day_def)
  have e: "t2 - (t1 - days * us_per_day) = (t2 - t1) + days * us_per_day"
    by simp
  have z: "(t2 - t1) div us_per_day = 0" using assms(2,3) pos by (simp add: div_pos_pos_trivial)
  have "((t2 - t1) + days * us_per_day) div us_per_day = days + (t2 - t1) div us_per_day"
    using pos by (intro div_mult_self1) simp
  then have d: "(t2 - (t1 - days * us_per_day)) div us_per_day = days"
    unfolding e z by simp
  have "0 \<le> days * us_per_day" using assms(1) pos by simp
  then have "\<not> t2 < t1 - days * us_per_day" using assms(2) by simp
  then show ?thesis unfolding date_list_def d by simp
qed

lemma window_length:
  assumes "0 \<le> days" "t1 \<le> t2" "t2 < t1 + us_per_day"
  shows "length (weekdays_only (date_list (t1 - days * us_per_day) t2))
         = weekday_count (day_number t1) days"
proof -
  have "[day_number t1 - days..day_number t1] = map (\<lambda>k. day_number t1 - days + int k) [0..<Suc (nat days)]"
    using upto_as_map [of "day_number t1 - days" "nat days"] assms(1) by simp
  then have "weekday_count (day_number t1) days
     = length (filter (\<lambda>k. is_weekday_number (day_number t1 - days + int k)) [0..<Suc (nat days)])"
    unfolding weekday_count_def by (simp only: filter_map length_map o_def)
  moreover have "length (weekdays_only (date_list (t1 - days * us_per_day) t2))
     = length (filter (\<lambda>k. is_weekday_number (day_number t1 - days + int k)) [0..<Suc (nat days)])"
    unfolding date_list_window [OF assms] weekdays_only_def
    by (simp only: filter_map length_map o_def weekday_shift)
  ultimately show ?thesis by simp
qed

lemma window_length_all:
  assumes "t1 \<le> t2" "t2 < t1 + us_per_day"
  shows "length (weekdays_only (date_list (t1 - days * us_per_day) t2))
         = weekday_count (day_number t1) days"
proof (cases "0 \<le> days")
  case True
  then show ?thesis using assms by (rule window_length)
next
  case False
  then have "days \<le> - 1" by simp
  then have "days * us_per_day \<le> - 1 * us_per_day"
    by (intro mult_right_mono) (simp_all add: us_per_day_def)
  then have "t2 < t1 - days * us_per_day"
    using assms(2) by simp
  then have "date_list (t1 - days * us_per_day) t2 = []"
    by (simp add: date_list_def)
  moreover have "weekday_count (day_number t1) days = 0"
    using False by (simp add: weekday_count_def)
  ultimately show ?thesis by (simp add: weekdays_only_def)
qed



lemma upto_shift: "[a + c..b + c] = map (\<lambda>x. x + c) [a..b]"
proof (cases "a \<le> b")
  case True
  then obtain n where b: "b = a + int n" by (metis zle_iff_zadd)
  show ?thesis unfolding b using upto_as_map [of "a + c" n] upto_as_map [of a n]
    by (simp add: algebra_simps)
next
  case False
  then show ?thesis by simp
qed

lemma weekday_count_week: "weekday_count (today + 7 * q) days = weekday_count today days"
proof -
  have "[today + 7 * q - days..today + 7 * q] = map (\<lambda>x. x + 7 * q) [today - days..today]"
    using upto_shift [of "today - days" "7 * q" today] by (simp add: algebra_simps)
  moreover have "is_weekday_number (x + 7 * q) = is_weekday_number x" for x
    unfolding is_weekday_number_def by presburger
  ultimately show ?thesis unfolding weekday_count_def by (simp add: filter_map o_def)
qed

lemma weekday_count_252_small:
  "weekday_count 0 252 = 181" "weekday_count 1 252 = 181" "weekday_count 2 252 = 180"
  "weekday_count 3 252 = 180" "weekday_count 4 252 = 181" "weekday_count 5 252 = 181"
  "weekday_count 6 252 = 181"
  by code_simp+

lemma weekday_count_252: "weekday_count today 252 = (if today mod 7 \<in> {2, 3} then 180 else 181)"
proof -
  have t: "today = today mod 7 + 7 * (today div 7)" by simp
  have "today mod 7 \<in> {0, 1, 2, 3, 4, 5, 6}" by auto
  then have "weekday_count (today mod 7) 252 = (if today mod 7 \<in> {2, 3} then 180 else 181)"
    using weekday_count_252_small by auto
  then show ?thesis using weekday_count_week [of "today mod 7" "today div 7" 252] t by simp
qed

section \<open>Fetching with fallback\<close>

lemma fetch_real_data_world:
  "snd (fetch_real_data p self symbol period w) = w
   \<or> snd (fetch_real_data p self symbol period w) = w\<lparr>reads := reads w + 1\<rparr>"
  unfolding fetch_real_data_def datetime_now_def
  by (simp add: Let_def split: response.splits option.splits prod.splits sum.splits)

lemma fetch_real_data_keeps:
  "files (snd (fetch_real_data p self symbol period w)) = files w"
  "clock (snd (fetch_real_data p self symbol period w)) = clock w"
  "slept (snd (fetch_real_data p self symbol period w)) = slept w"
  "rng (snd (fetch_real_data p self symbol period w)) = rng w"
  using fetch_real_data_world [of p self symbol period w] by auto

lemma Robust_fetch_data_no_fallback:
  assumes "fetch_real_data p self symbol period w = (None, w1)"
  shows "Robust_fetch_data p self symbol period False w = (Inr None, w1)"
  unfolding Robust_fetch_data_def assms Let_def by simp

lemma Robust_fetch_data_fallback:
  assumes "fetch_real_data p self symbol period w = (None, w1)"
    and sup: "lookback_supported 252 w1"
  shows "\<exists>data g. length data = length (robust_dates 252 w1) \<and> (\<forall>b\<in>set data. synthetic_bar b)
     \<and> Robust_generate_sample_data p symbol 252 w1
         = (Inr (zip (robust_dates 252 w1) data), w1\<lparr>reads := reads w1 + 2, rng := g\<rparr>)
     \<and> Robust_fetch_data p self symbol period True w =
        (if can_write p (robust_path self symbol (clock w1 (reads w1 + 2)))
         then (Inr (Some (zip (robust_dates 252 w1) data)),
               rate_limit self
                 (w1\<lparr>reads := reads w1 + 3, rng := g,
                    files := (files w1)(robust_path self symbol (clock w1 (reads w1 + 2))
                               \<mapsto> zip (robust_dates 252 w1) data)\<rparr>))
         else (Inl IOError, w1\<lparr>reads := reads w1 + 3, rng := g\<rparr>))"
proof -
  from Robust_generate_frame [OF sup, of p symbol] obtain data g where
    r: "Robust_generate_sample_data p symbol 252 w1 =
          (Inr (zip (robust_dates 252 w1) data), w1\<lparr>reads := reads w1 + 2, rng := g\<rparr>)"
    and l: "length data = length (robust_dates 252 w1)" and ok: "\<forall>b\<in>set data. synthetic_bar b"
    by blast
  have "Robust_fetch_data p self symbol period True w =
        (if can_write p (robust_path self symbol (clock w1 (reads w1 + 2)))
         then (Inr (Some (zip (robust_dates 252 w1) data)),
               rate_limit self
                 (w1\<lparr>reads := reads w1 + 3, rng := g,
                    files := (files w1)(robust_path self symbol (clock w1 (reads w1 + 2))
                               \<mapsto> zip (robust_dates 252 w1) data)\<rparr>))
         else (Inl IOError, w1\<lparr>reads := reads w1 + 3, rng := g\<rparr>))"
    unfolding Robust_fetch_data_def assms(1) Let_def prod.case
    by (simp add: r datetime_now_def to_csv_def robust_path_def rate_limit_def time_sleep_def numeral_3_eq_3)
  then show ?thesis using r l ok by blast
qed

lemma Robust_fetch_data_unsupported:
  assumes f: "fetch_real_data p self symbol period w = (None, w1)"
    and un: "\<not> lookback_supported 252 w1"
  shows "fst (Robust_fetch_data p self symbol period True w) = Inl OverflowError
       \<or> fst (Robust_fetch_data p self symbol period True w) = Inl OutOfBoundsDatetime"
    and "files (snd (Robust_fetch_data p self symbol period True w)) = files w1"
proof -
  obtain r w2 where g: "Robust_generate_sample_data p symbol 252 w1 = (r, w2)"
    by (cases "Robust_generate_sample_data p symbol 252 w1")
  have "r = Inl OverflowError \<or> r = Inl OutOfBoundsDatetime"
    using Robust_generate_unsupported(4) [OF un, of p symbol] unfolding g by simp
  then obtain x where r: "r = Inl x" and x: "x = OverflowError \<or> x = OutOfBoundsDatetime"
    by blast
  have fl: "files w2 = files w1"
    using Robust_generate_unsupported(3) [OF un, of p symbol] unfolding g by simp
  have fd: "Robust_fetch_data p self symbol period True w = (Inl x, w2)"
    unfolding Robust_fetch_data_def f g r prod.case Let_def by simp
  show "fst (Robust_fetch_data p self symbol period True w) = Inl OverflowError
       \<or> fst (Robust_fetch_data p self symbol period True w) = Inl OutOfBoundsDatetime"
    unfolding fd using x by simp
  show "files (snd (Robust_fetch_data p self symbol period True w)) = files w1"
    unfolding fd using fl by simp
qed

lemma rate_limit_keeps:
  "files (rate_limit self w) = files w" "clock (rate_limit self w) = clock w"
  "reads (rate_limit self w) = reads w" "rng (rate_limit self w) = rng w"
  by (simp_all add: rate_limit_def time_sleep_def)






lemma ex_client_null: "client_returns_null (ex_env h) self symbol period"
  by (simp add: client_returns_null_def fetch_real_data_def ex_env_def)

lemma ex_fetch_real_data: "fetch_real_data (ex_env h) self symbol period w = (None, w)"
  by (simp add: fetch_real_data_def ex_env_def)

lemma ex_can_write: "\<forall>path. can_write (ex_env h) path"
  by (simp add: ex_env_def)


lemma ex_lookback_supported:
  "lookback_supported 252 (ex_world saturday_noon)"
  "lookback_supported 252 (ex_world tuesday_noon)"
  "lookback_supported 2 (ex_world tuesday_noon)"
  by (simp_all add: lookback_supported_def within_timestamps_def timestamp_min_def
      timestamp_max_def ex_world_def saturday_noon_def tuesday_noon_def us_per_day_def)


lemma digit_not_s: "digit n \<noteq> CHR ''s''"
proof -
  define m where "m = nat (n mod 10)"
  have "m < 10" unfolding m_def by simp
  then have "m = 0 \<or> m = 1 \<or> m = 2 \<or> m = 3 \<or> m = 4 \<or> m = 5 \<or> m = 6 \<or> m = 7 \<or> m = 8 \<or> m = 9"
    by arith
  then show ?thesis unfolding digit_def m_def [symmetric] by auto
qed

lemma robust_path_not_sample: "robust_path self symbol t \<noteq> sample_path self' symbol' t'"
  if "data_dir self = data_dir self'" "symbol = symbol'"
  using that digit_not_s
  by (auto simp: robust_path_def sample_path_def strftime_Ymd_def split: prod.splits)

lemma saturday_path:
  "robust_path ex_fetcher ''XYZ'' (clock (ex_world saturday_noon) 2) = ''data/XYZ_20240601.csv''"
  by code_simp

lemma make_bar_tape: "tape (snd (make_bar prices i price g)) = tape g"
  by (simp add: make_bar_def np_uniform_def np_randint_def Let_def)

lemma ohlc_loop_tape: "tape (snd (ohlc_loop prices items g)) = tape g"
proof (induction prices items g rule: ohlc_loop.induct)
  case (1 prices g)
  then show ?case by simp
next
  case (2 prices i date price rest g)
  obtain b0 g1 where m: "make_bar prices i price g = (b0, g1)" by (cases "make_bar prices i price g")
  obtain bs g2 where l: "ohlc_loop prices rest g1 = (bs, g2)" by (cases "ohlc_loop prices rest g1")
  have "tape g2 = tape g1" using "2.IH" [OF m [symmetric] refl] l by simp
  moreover have "tape g1 = tape g" using make_bar_tape [of prices i price g] m by simp
  ultimately show ?case using m l by simp
qed

lemma build_frame_tape: "tape (snd (build_frame base dates g)) = tape g"
proof -
  obtain rets g1 where n: "np_normal (5 / 10000) (2 / 100) (length dates) g = (rets, g1)"
    by (cases "np_normal (5 / 10000) (2 / 100) (length dates) g")
  have t1: "tape g1 = tape g" using n by (auto simp: np_normal_def)
  define prices where "prices = walk_prices [base] (drop 1 rets)"
  obtain data g2 where l: "ohlc_loop prices (enumerate_zip dates prices) g1 = (data, g2)"
    by (cases "ohlc_loop prices (enumerate_zip dates prices) g1")
  have t2: "tape g2 = tape g1" using ohlc_loop_tape [of prices "enumerate_zip dates prices" g1] l by simp
  have "snd (build_frame base dates g) = g2"
    unfolding build_frame_def Let_def n prod.case prices_def [symmetric] l by simp
  then show ?thesis using t1 t2 by simp
qed

lemma Robust_generate_tape:
  assumes "lookback_supported days w"
  shows "tape (rng (snd (Robust_generate_sample_data p symbol days w)))
   = mt19937 p (nat (str_hash p symbol mod 1000))"
proof -
  have "tape (snd (build_frame base dates (np_seed p s))) = mt19937 p s" for base dates s
    unfolding build_frame_tape by (simp add: np_seed_def)
  then show ?thesis
    unfolding Robust_generate_sample_data_def datetime_now_def Let_def
    using lookback_supported_window [OF assms]
    by (simp split: prod.splits) (metis snd_conv)
qed

lemma Robust_generate_same_seed:
  assumes "str_hash p s mod 1000 = str_hash p s' mod 1000" and "(s = ''SPY'') = (s' = ''SPY'')"
  shows "Robust_generate_sample_data p s days w = Robust_generate_sample_data p s' days w"
proof -
  have a: "nat (str_hash p s mod 1000) = nat (str_hash p s' mod 1000)"
    using assms(1) by simp
  have b: "(if s = ''SPY'' then 100 else (150::real)) = (if s' = ''SPY'' then 100 else 150)"
    using assms(2) by simp
  show ?thesis unfolding Robust_generate_sample_data_def a b by (rule refl)
qed

lemma walk_prices_hd: "prices \<noteq> [] \<Longrightarrow> hd (walk_prices prices rets) = hd prices"
  by (induction prices rets rule: walk_prices.induct) (simp_all add: Let_def)

lemma walk_prices_nonempty: "prices \<noteq> [] \<Longrightarrow> walk_prices prices rets \<noteq> []"
  using walk_prices_length [of prices rets] by auto

lemma generated_rows_synthetic:
  assumes "fst (Robust_generate_sample_data p symbol days w) = Inr df
           \<or> fst (Sample_generate_sample_data p self symbol sa ea days w) = Inr df"
    and "(d, b) \<in> set df"
  shows "synthetic_bar b"
proof -
  have "\<exists>ds data. df = zip ds data \<and> (\<forall>b\<in>set data. synthetic_bar b)"
    using assms(1)
  proof
    assume r: "fst (Robust_generate_sample_data p symbol days w) = Inr df"
    from Robust_generate_frame [OF Robust_generate_Inr [OF r], of p symbol] obtain data g where
      "Robust_generate_sample_data p symbol days w =
         (Inr (zip (robust_dates days w) data), w\<lparr>reads := reads w + 2, rng := g\<rparr>)"
      and ok: "\<forall>b\<in>set data. synthetic_bar b" by blast
    then have "df = zip (robust_dates days w) data" using r by simp
    then show ?thesis using ok by blast
  next
    assume "fst (Sample_generate_sample_data p self symbol sa ea days w) = Inr df"
    from Sample_generate_Inr [OF this] show ?thesis by blast
  qed
  then obtain ds data where "df = zip ds data" and ok: "\<forall>b\<in>set data. synthetic_bar b"
    by blast
  then have "b \<in> set data" using assms(2) by (auto dest: set_zip_rightD)
  then show ?thesis using ok by blast
qed

lemma tuesday_frame_generated:
  "fst (Robust_generate_sample_data (ex_env cpython_hash_1) ''AAPL'' 2 (ex_world tuesday_noon))
   = Inr tuesday_frame"
  by code_simp

lemma tuesday_clock:
  "clock (ex_world tuesday_noon) (reads (ex_world tuesday_noon))
     \<le> clock (ex_world tuesday_noon) (Suc (reads (ex_world tuesday_noon)))"
  "clock (ex_world tuesday_noon) (Suc (reads (ex_world tuesday_noon)))
     < clock (ex_world tuesday_noon) (reads (ex_world tuesday_noon)) + us_per_day"
  by (simp_all add: ex_world_def us_per_day_def)

lemma make_bar_volume_bits:
  "Volume (fst (make_bar prices i price g)) = 1000000 + int (bits (tape g (pos g + 2))) mod 9000000"
  by (simp add: make_bar_def np_uniform_def np_randint_def Let_def)

lemma build_frame_first_volume:
  assumes "dates \<noteq> []" and "fst (build_frame base dates g) = Inr df"
  shows "Volume (snd (hd df)) = 1000000 + int (bits (tape g (pos g + length dates + 2))) mod 9000000"
proof -
  obtain d ds where dates: "dates = d # ds" using assms(1) by (cases dates) auto
  obtain rets g1 where n: "np_normal (5 / 10000) (2 / 100) (length dates) g = (rets, g1)"
    by (cases "np_normal (5 / 10000) (2 / 100) (length dates) g")
  have g1: "tape g1 = tape g" "pos g1 = pos g + length dates" using n by (auto simp: np_normal_def)
  define prices where "prices = walk_prices [base] (drop 1 rets)"
  have "prices \<noteq> []" "hd prices = base"
    unfolding prices_def using walk_prices_nonempty [of "[base]"] walk_prices_hd [of "[base]"] by simp_all
  then obtain ps where prices: "prices = base # ps" by (cases prices) auto
  have ez: "enumerate_zip dates prices = (0, d, base) # zip [1..<Suc (length ds)] (zip ds ps)"
    unfolding enumerate_zip_def dates prices by (simp add: upt_conv_Cons del: upt_Suc)
  obtain b0 g2 where m: "make_bar prices 0 base g1 = (b0, g2)" by (cases "make_bar prices 0 base g1")
  obtain bs g3 where l: "ohlc_loop prices (zip [1..<Suc (length ds)] (zip ds ps)) g2 = (bs, g3)"
    by (cases "ohlc_loop prices (zip [1..<Suc (length ds)] (zip ds ps)) g2")
  have loop: "ohlc_loop prices (enumerate_zip dates prices) g1 = (b0 # bs, g3)"
    unfolding ez using m l by simp
  have v: "Volume b0 = 1000000 + int (bits (tape g (pos g + length dates + 2))) mod 9000000"
    using make_bar_volume_bits [of prices 0 base g1] m unfolding g1 by simp
  have "fst (build_frame base dates g) = pd_DataFrame (b0 # bs) dates"
    unfolding build_frame_def Let_def n prod.case prices_def [symmetric] loop by simp
  then have "df = zip dates (b0 # bs)"
    using assms(2) by (simp add: pd_DataFrame_def split: if_splits)
  then show ?thesis using v unfolding dates by simp
qed

lemma tuesday_dates_252: "length (robust_dates 252 (ex_world tuesday_noon)) = 181"
proof -
  have "length (robust_dates 252 (ex_world tuesday_noon))
        = weekday_count (day_number (clock (ex_world tuesday_noon) (reads (ex_world tuesday_noon)))) 252"
    unfolding robust_dates_def by (rule window_length_all [OF tuesday_clock])
  moreover have "day_number (clock (ex_world tuesday_noon) (reads (ex_world tuesday_noon))) = 19878"
    by (simp add: ex_world_def tuesday_noon_def day_number_def us_per_day_def)
  ultimately show ?thesis by (simp add: weekday_count_252)
qed

lemma tuesday_first_volume:
  assumes "fst (Robust_generate_sample_data (ex_env h) s 252 (ex_world tuesday_noon)) = Inr df"
  shows "Volume (snd (hd df)) = 1000000 + int (nat (h s mod 1000) + 183) mod 9000000"
proof -
  define g0 where "g0 = np_seed (ex_env h) (nat (str_hash (ex_env h) s mod 1000))"
  define base :: real where "base = (if s = ''SPY'' then 100 else 150)"
  have e: "fst (Robust_generate_sample_data (ex_env h) s 252 (ex_world tuesday_noon))
           = fst (build_frame base (robust_dates 252 (ex_world tuesday_noon)) g0)"
    unfolding Robust_generate_sample_data_def datetime_now_def Let_def robust_dates_def g0_def base_def
    using lookback_supported_window [OF ex_lookback_supported(2)]
    by (simp split: prod.splits)
  have ne: "robust_dates 252 (ex_world tuesday_noon) \<noteq> []"
    using tuesday_dates_252 by auto
  have "Volume (snd (hd df)) = 1000000 + int (bits (tape g0 (pos g0 + 181 + 2))) mod 9000000"
    using build_frame_first_volume [OF ne, of base g0 df] assms e tuesday_dates_252 by simp
  then show ?thesis
    by (simp add: g0_def np_seed_def ex_env_def toy_tape_def)
qed

lemma tuesday_252_differs:
  "fst (Robust_generate_sample_data (ex_env cpython_hash_1) ''AAPL'' 252 (ex_world tuesday_noon))
   \<noteq> fst (Robust_generate_sample_data (ex_env cpython_hash_2) ''AAPL'' 252 (ex_world tuesday_noon))"
proof
  assume eq: "fst (Robust_generate_sample_data (ex_env cpython_hash_1) ''AAPL'' 252 (ex_world tuesday_noon))
   = fst (Robust_generate_sample_data (ex_env cpython_hash_2) ''AAPL'' 252 (ex_world tuesday_noon))"
  from Robust_generate_frame [OF ex_lookback_supported(2), of "ex_env cpython_hash_1" "''AAPL''"]
  obtain df where a: "fst (Robust_generate_sample_data (ex_env cpython_hash_1) ''AAPL'' 252
                        (ex_world tuesday_noon)) = Inr df"
    by auto
  have b: "fst (Robust_generate_sample_data (ex_env cpython_hash_2) ''AAPL'' 252
                        (ex_world tuesday_noon)) = Inr df"
    using a eq by simp
  have "Volume (snd (hd df)) = 1001072"
    using tuesday_first_volume [OF a] by (simp add: cpython_hash_1_def)
  moreover have "Volume (snd (hd df)) = 1000728"
    using tuesday_first_volume [OF b] by (simp add: cpython_hash_2_def)
  ultimately show False by simp
qed

lemma tuesday_252_symbols_differ:
  "fst (Robust_generate_sample_data (ex_env cpython_hash_1) ''AAPL'' 252 (ex_world tuesday_noon))
   \<noteq> fst (Robust_generate_sample_data (ex_env cpython_hash_1) ''MSFT'' 252 (ex_world tuesday_noon))"
proof
  assume eq: "fst (Robust_generate_sample_data (ex_env cpython_hash_1) ''AAPL'' 252 (ex_world tuesday_noon))
   = fst (Robust_generate_sample_data (ex_env cpython_hash_1) ''MSFT'' 252 (ex_world tuesday_noon))"
  from Robust_generate_frame [OF ex_lookback_supported(2), of "ex_env cpython_hash_1" "''AAPL''"]
  obtain df where a: "fst (Robust_generate_sample_data (ex_env cpython_hash_1) ''AAPL'' 252
                        (ex_world tuesday_noon)) = Inr df"
    by auto
  have b: "fst (Robust_generate_sample_data (ex_env cpython_hash_1) ''MSFT'' 252
                        (ex_world tuesday_noon)) = Inr df"
    using a eq by simp
  have "Volume (snd (hd df)) = 1001072"
    using tuesday_first_volume [OF a] by (simp add: cpython_hash_1_def)
  moreover have "Volume (snd (hd df)) = 1000195"
    using tuesday_first_volume [OF b] by (simp add: cpython_hash_1_def)
  ultimately show False by simp
qed

lemma tuesday_252_returned:
  "\<not> isl (fst (Robust_generate_sample_data (ex_env h) s 252 (ex_world tuesday_noon)))"
  using Robust_generate_frame [OF ex_lookback_supported(2), of "ex_env h" s] by auto

section \<open>The claims about the generator\<close>

text \<open>
  C2. Every bar of a frame returned by either generator, for every symbol, lookback and
  tape of draws, has its low at or below its open and its close, and its high at or above
  them, after the rounding to two decimals.
\<close>

theorem C2_ohlc_invariant:
  assumes "fst (Robust_generate_sample_data p symbol days w) = Inr df
           \<or> fst (Sample_generate_sample_data p self symbol sa ea days w) = Inr df"
    and "(d, b) \<in> set df"
  shows "Low b \<le> Open b \<and> Open b \<le> High b \<and> Low b \<le> Close b \<and> Close b \<le> High b"
  using generated_rows_synthetic [OF assms] unfolding synthetic_bar_def ohlc_ok_def by blast

theorem C2_ohlc_invariant_witness:
  "fst (Robust_generate_sample_data (ex_env cpython_hash_1) ''AAPL'' 2 (ex_world tuesday_noon))
     = Inr tuesday_frame
   \<and> (1717502400000000, tuesday_bar) \<in> set tuesday_frame
   \<and> Low tuesday_bar \<le> Open tuesday_bar \<and> Open tuesday_bar \<le> High tuesday_bar
   \<and> Low tuesday_bar \<le> Close tuesday_bar \<and> Close tuesday_bar \<le> High tuesday_bar"
proof -
  have m: "(1717502400000000, tuesday_bar) \<in> set tuesday_frame"
    by (simp add: tuesday_frame_def)
  show ?thesis
    using C2_ohlc_invariant [OF disjI1 [OF tuesday_frame_generated] m] tuesday_frame_generated m
    by blast
qed

text \<open>
  C7. Every bar of a generated frame has a close of at least 0.01, after rounding, whatever
  returns are drawn: the first price is the base price (100 or 150) and every later price
  is floored at 0.01 by the loop over the returns.
\<close>

theorem C7_close_floor:
  assumes "fst (Robust_generate_sample_data p symbol days w) = Inr df
           \<or> fst (Sample_generate_sample_data p self symbol sa ea days w) = Inr df"
    and "(d, b) \<in> set df"
  shows "1 / 100 \<le> Close b"
  using generated_rows_synthetic [OF assms] unfolding synthetic_bar_def by blast

theorem C7_close_floor_witness:
  "fst (Robust_generate_sample_data (ex_env cpython_hash_1) ''AAPL'' 2 (ex_world tuesday_noon))
     = Inr tuesday_frame
   \<and> (1717502400000000, tuesday_bar) \<in> set tuesday_frame
   \<and> 1 / 100 \<le> Close tuesday_bar"
proof -
  have m: "(1717502400000000, tuesday_bar) \<in> set tuesday_frame"
    by (simp add: tuesday_frame_def)
  show ?thesis
    using C7_close_floor [OF disjI1 [OF tuesday_frame_generated] m] tuesday_frame_generated m
    by blast
qed






section \<open>The claims about fetching and saving\<close>




text \<open>
  Against C5 as stated: with the example provider and the fallback switched off,
  \<^verbatim>\<open>fetch_data('XYZ')\<close> returns None; nothing is raised.
\<close>

theorem C5_no_fallback_returns_none:
  "fst (Robust_fetch_data (ex_env cpython_hash_1) ex_fetcher ''XYZ'' ''1y'' False
          (ex_world tuesday_noon)) = Inr None"
  by (simp add: Robust_fetch_data_no_fallback [OF ex_fetch_real_data])

text \<open>
  C5, as the code has it. Given a client that returns no data, \<^verbatim>\<open>fetch_data\<close> without
  fallback returns None and raises nothing. With fallback, when the clock reads instants
  pandas can hold together with the instant 252 days before, it returns the frame of the
  synthetic generator (lookback 252) if the write of its snapshot succeeds, and the I/O
  error of the write otherwise; at any other clock it raises the OverflowError or the
  OutOfBoundsDatetime of the generator.
\<close>

theorem C5_fallback_policy:
  assumes "client_returns_null p self symbol period"
  shows "fst (Robust_fetch_data p self symbol period False w) = Inr None
     \<and> (if lookback_supported 252 (snd (fetch_real_data p self symbol period w))
        then \<exists>df. fst (Robust_generate_sample_data p symbol 252 (snd (fetch_real_data p self symbol period w)))
               = Inr df
            \<and> (\<forall>r\<in>set df. synthetic_bar (snd r))
            \<and> fst (Robust_fetch_data p self symbol period True w)
               = (if can_write p (robust_path self symbol
                       (clock w (reads (snd (fetch_real_data p self symbol period w)) + 2)))
                  then Inr (Some df) else Inl IOError)
        else fst (Robust_fetch_data p self symbol period True w) = Inl OverflowError
           \<or> fst (Robust_fetch_data p self symbol period True w) = Inl OutOfBoundsDatetime)"
proof -
  define w1 where "w1 = snd (fetch_real_data p self symbol period w)"
  have f: "fetch_real_data p self symbol period w = (None, w1)"
    using assms unfolding client_returns_null_def w1_def by (metis prod.collapse)
  have k: "clock w1 = clock w" unfolding w1_def by (rule fetch_real_data_keeps)
  have a: "fst (Robust_fetch_data p self symbol period False w) = Inr None"
    by (simp add: Robust_fetch_data_no_fallback [OF f])
  have b: "\<exists>df. fst (Robust_generate_sample_data p symbol 252 w1) = Inr df
            \<and> (\<forall>r\<in>set df. synthetic_bar (snd r))
            \<and> fst (Robust_fetch_data p self symbol period True w)
               = (if can_write p (robust_path self symbol (clock w (reads w1 + 2)))
                  then Inr (Some df) else Inl IOError)"
    if sup: "lookback_supported 252 w1"
  proof -
    from Robust_fetch_data_fallback [OF f sup] obtain data g where
      ok: "\<forall>b\<in>set data. synthetic_bar b"
      and r: "Robust_generate_sample_data p symbol 252 w1
           = (Inr (zip (robust_dates 252 w1) data), w1\<lparr>reads := reads w1 + 2, rng := g\<rparr>)"
      and fd: "fst (Robust_fetch_data p self symbol period True w) =
          (if can_write p (robust_path self symbol (clock w1 (reads w1 + 2)))
           then Inr (Some (zip (robust_dates 252 w1) data)) else Inl IOError)"
      by (auto split: if_splits)
    have syn: "\<forall>r\<in>set (zip (robust_dates 252 w1) data). synthetic_bar (snd r)"
      using ok by (auto dest: set_zip_rightD)
    show ?thesis
      using r syn fd unfolding k by (intro exI [of _ "zip (robust_dates 252 w1) data"]) simp
  qed
  have c: "fst (Robust_fetch_data p self symbol period True w) = Inl OverflowError
           \<or> fst (Robust_fetch_data p self symbol period True w) = Inl OutOfBoundsDatetime"
    if "\<not> lookback_supported 252 w1"
    by (rule Robust_fetch_data_unsupported(1) [OF f that])
  show ?thesis
  proof (cases "lookback_supported 252 w1")
    case True
    then show ?thesis using a b unfolding w1_def by simp
  next
    case False
    then show ?thesis using a c unfolding w1_def by simp
  qed
qed

theorem C5_fallback_policy_witness:
  "client_returns_null (ex_env cpython_hash_1) ex_fetcher ''XYZ'' ''1y''
   \<and> lookback_supported 252 (ex_world saturday_noon)
   \<and> fst (Robust_fetch_data (ex_env cpython_hash_1) ex_fetcher ''XYZ'' ''1y'' False
            (ex_world saturday_noon)) = Inr None
   \<and> (\<exists>df. fst (Robust_generate_sample_data (ex_env cpython_hash_1) ''XYZ'' 252
                   (ex_world saturday_noon)) = Inr df
          \<and> fst (Robust_fetch_data (ex_env cpython_hash_1) ex_fetcher ''XYZ'' ''1y'' True
                   (ex_world saturday_noon)) = Inr (Some df))"
proof -
  from C5_fallback_policy [OF ex_client_null, of cpython_hash_1 ex_fetcher "''XYZ''" "''1y''"
      "ex_world saturday_noon"]
  have a: "fst (Robust_fetch_data (ex_env cpython_hash_1) ex_fetcher ''XYZ'' ''1y'' False
            (ex_world saturday_noon)) = Inr None"
    and "\<exists>df. fst (Robust_generate_sample_data (ex_env cpython_hash_1) ''XYZ'' 252
                   (ex_world saturday_noon)) = Inr df
          \<and> (\<forall>r\<in>set df. synthetic_bar (snd r))
          \<and> fst (Robust_fetch_data (ex_env cpython_hash_1) ex_fetcher ''XYZ'' ''1y'' True
                   (ex_world saturday_noon)) = Inr (Some df)"
    unfolding ex_fetch_real_data by (simp_all add: ex_env_def ex_lookback_supported(1))
  then obtain df where
    "fst (Robust_generate_sample_data (ex_env cpython_hash_1) ''XYZ'' 252
                   (ex_world saturday_noon)) = Inr df
     \<and> fst (Robust_fetch_data (ex_env cpython_hash_1) ex_fetcher ''XYZ'' ''1y'' True
                   (ex_world saturday_noon)) = Inr (Some df)"
    by auto
  then have "\<exists>df. fst (Robust_generate_sample_data (ex_env cpython_hash_1) ''XYZ'' 252
                   (ex_world saturday_noon)) = Inr df
          \<and> fst (Robust_fetch_data (ex_env cpython_hash_1) ex_fetcher ''XYZ'' ''1y'' True
                   (ex_world saturday_noon)) = Inr (Some df)"
    by (rule exI)
  then show ?thesis
    using a ex_client_null [of cpython_hash_1 ex_fetcher "''XYZ''" "''1y''"] ex_lookback_supported(1)
    by (intro conjI)
qed

text \<open>
  C9. \<^verbatim>\<open>RobustDataFetcher.fetch_data\<close> saves the synthetic frame of its fallback at
  \<open>dir/symbol_YYYYMMDD.csv\<close>, the path of a real series, and not at the \<^verbatim>\<open>_sample_\<close>
  path that \<^verbatim>\<open>SampleDataFetcher.generate_sample_data\<close> uses for a synthetic frame. This
  is so whenever the fallback produces a frame, that is, at a clock reading instants
  pandas can hold together with the instant 252 days before, and the write succeeds.
\<close>

theorem C9_fallback_saved_under_plain_name:
  assumes "client_returns_null p self symbol period"
    and "can_write p (robust_path self symbol
           (clock w (reads (snd (fetch_real_data p self symbol period w)) + 2)))"
    and "lookback_supported 252 (snd (fetch_real_data p self symbol period w))"
  shows "\<exists>df w' t. Robust_fetch_data p self symbol period True w = (Inr (Some df), w')
     \<and> fst (Robust_generate_sample_data p symbol 252 (snd (fetch_real_data p self symbol period w)))
         = Inr df
     \<and> files w' = (files w)(data_dir self @ ''/'' @ symbol @ ''_'' @ strftime_Ymd t @ ''.csv'' \<mapsto> df)
     \<and> data_dir self @ ''/'' @ symbol @ ''_'' @ strftime_Ymd t @ ''.csv''
         \<noteq> data_dir self @ ''/'' @ symbol @ ''_sample_'' @ strftime_Ymd t @ ''.csv''"
proof -
  define w1 where "w1 = snd (fetch_real_data p self symbol period w)"
  define t where "t = clock w (reads w1 + 2)"
  have f: "fetch_real_data p self symbol period w = (None, w1)"
    using assms(1) unfolding client_returns_null_def w1_def by (metis prod.collapse)
  have k: "clock w1 = clock w" "files w1 = files w"
    unfolding w1_def by (rule fetch_real_data_keeps)+
  have cw: "can_write p (robust_path self symbol (clock w1 (reads w1 + 2)))"
    using assms(2) unfolding k w1_def [symmetric] by simp
  have sup: "lookback_supported 252 w1" using assms(3) unfolding w1_def .
  from Robust_fetch_data_fallback [OF f sup] cw obtain data g where
    r: "Robust_generate_sample_data p symbol 252 w1
         = (Inr (zip (robust_dates 252 w1) data), w1\<lparr>reads := reads w1 + 2, rng := g\<rparr>)"
    and fd: "Robust_fetch_data p self symbol period True w =
        (Inr (Some (zip (robust_dates 252 w1) data)),
               rate_limit self
                 (w1\<lparr>reads := reads w1 + 3, rng := g,
                    files := (files w1)(robust_path self symbol (clock w1 (reads w1 + 2))
                               \<mapsto> zip (robust_dates 252 w1) data)\<rparr>))"
    by auto
  have fl: "files (rate_limit self
                 (w1\<lparr>reads := reads w1 + 3, rng := g,
                    files := (files w1)(robust_path self symbol (clock w1 (reads w1 + 2))
                               \<mapsto> zip (robust_dates 252 w1) data)\<rparr>))
     = (files w)(data_dir self @ ''/'' @ symbol @ ''_'' @ strftime_Ymd t @ ''.csv''
                  \<mapsto> zip (robust_dates 252 w1) data)"
    unfolding rate_limit_keeps k t_def by (simp add: robust_path_def)
  have ne: "data_dir self @ ''/'' @ symbol @ ''_'' @ strftime_Ymd t @ ''.csv''
         \<noteq> data_dir self @ ''/'' @ symbol @ ''_sample_'' @ strftime_Ymd t @ ''.csv''"
    using robust_path_not_sample [of self self symbol symbol t t]
    unfolding robust_path_def sample_path_def by simp
  show ?thesis
    using fd r fl ne unfolding w1_def [symmetric]
    by (intro exI [of _ "zip (robust_dates 252 w1) data"] exI [of _ t] exI conjI) simp_all
qed

theorem C9_fallback_saved_under_plain_name_witness:
  "client_returns_null (ex_env cpython_hash_1) ex_fetcher ''XYZ'' ''1y''
   \<and> can_write (ex_env cpython_hash_1) (robust_path ex_fetcher ''XYZ''
        (clock (ex_world saturday_noon)
          (reads (snd (fetch_real_data (ex_env cpython_hash_1) ex_fetcher ''XYZ'' ''1y''
             (ex_world saturday_noon))) + 2)))
   \<and> lookback_supported 252 (snd (fetch_real_data (ex_env cpython_hash_1) ex_fetcher ''XYZ'' ''1y''
        (ex_world saturday_noon)))
   \<and> robust_path ex_fetcher ''XYZ'' (clock (ex_world saturday_noon) 2) = ''data/XYZ_20240601.csv''
   \<and> (\<exists>df w' t. Robust_fetch_data (ex_env cpython_hash_1) ex_fetcher ''XYZ'' ''1y'' True
            (ex_world saturday_noon) = (Inr (Some df), w')
        \<and> fst (Robust_generate_sample_data (ex_env cpython_hash_1) ''XYZ'' 252
            (snd (fetch_real_data (ex_env cpython_hash_1) ex_fetcher ''XYZ'' ''1y''
               (ex_world saturday_noon)))) = Inr df
        \<and> files w' = (files (ex_world saturday_noon))
             (data_dir ex_fetcher @ ''/'' @ ''XYZ'' @ ''_'' @ strftime_Ymd t @ ''.csv'' \<mapsto> df))"
proof -
  have n: "client_returns_null (ex_env cpython_hash_1) ex_fetcher ''XYZ'' ''1y''"
    by (rule ex_client_null)
  have c: "can_write (ex_env cpython_hash_1) (robust_path ex_fetcher ''XYZ''
        (clock (ex_world saturday_noon)
          (reads (snd (fetch_real_data (ex_env cpython_hash_1) ex_fetcher ''XYZ'' ''1y''
             (ex_world saturday_noon))) + 2)))"
    using ex_can_write by blast
  have s: "lookback_supported 252 (snd (fetch_real_data (ex_env cpython_hash_1) ex_fetcher ''XYZ'' ''1y''
        (ex_world saturday_noon)))"
    unfolding ex_fetch_real_data snd_conv by (rule ex_lookback_supported(1))
  have "\<exists>df w' t. Robust_fetch_data (ex_env cpython_hash_1) ex_fetcher ''XYZ'' ''1y'' True
            (ex_world saturday_noon) = (Inr (Some df), w')
        \<and> fst (Robust_generate_sample_data (ex_env cpython_hash_1) ''XYZ'' 252
            (snd (fetch_real_data (ex_env cpython_hash_1) ex_fetcher ''XYZ'' ''1y''
               (ex_world saturday_noon)))) = Inr df
        \<and> files w' = (files (ex_world saturday_noon))
             (data_dir ex_fetcher @ ''/'' @ ''XYZ'' @ ''_'' @ strftime_Ymd t @ ''.csv'' \<mapsto> df)"
    using C9_fallback_saved_under_plain_name [OF n c s]
    apply -
    apply (elim exE conjE)
    apply (intro exI conjI)
    apply assumption+
    done
  then show ?thesis using n c s saturday_path by (intro conjI)
qed

text \<open>
  C10. When the real fetch yields no data and the fallback is off, \<^verbatim>\<open>fetch_data\<close>
  returns None, writes no file and does not pause: the files are those before the call.
\<close>

theorem C10_no_fallback_no_write:
  assumes "fst (fetch_real_data p self symbol period w) = None"
  shows "fst (Robust_fetch_data p self symbol period False w) = Inr None
     \<and> files (snd (Robust_fetch_data p self symbol period False w)) = files w
     \<and> slept (snd (Robust_fetch_data p self symbol period False w)) = slept w"
proof -
  define w1 where "w1 = snd (fetch_real_data p self symbol period w)"
  have f: "fetch_real_data p self symbol period w = (None, w1)"
    using assms unfolding w1_def by (metis prod.collapse)
  have k: "files w1 = files w" "slept w1 = slept w"
    unfolding w1_def by (rule fetch_real_data_keeps)+
  show ?thesis unfolding Robust_fetch_data_no_fallback [OF f] using k by simp
qed

theorem C10_no_fallback_no_write_witness:
  "fst (fetch_real_data (ex_env cpython_hash_1) ex_fetcher ''XYZ'' ''1y'' (ex_world tuesday_noon)) = None
   \<and> fst (Robust_fetch_data (ex_env cpython_hash_1) ex_fetcher ''XYZ'' ''1y'' False
             (ex_world tuesday_noon)) = Inr None
   \<and> files (snd (Robust_fetch_data (ex_env cpython_hash_1) ex_fetcher ''XYZ'' ''1y'' False
             (ex_world tuesday_noon))) = Map.empty"
proof -
  have h: "fst (fetch_real_data (ex_env cpython_hash_1) ex_fetcher ''XYZ'' ''1y''
             (ex_world tuesday_noon)) = None"
    by (simp add: ex_fetch_real_data)
  show ?thesis using C10_no_fallback_no_write [OF h] h by (simp add: ex_world_def)
qed

section \<open>The claims about seeds and symbols\<close>

text \<open>
  C1. Whenever \<^verbatim>\<open>RobustDataFetcher.generate_sample_data\<close> returns a frame, the stream it
  drew from is the one numpy starts from the seed \<open>hash(symbol) mod 1000\<close>, and the
  builtin hash of a string depends on the process: for AAPL the seed is 889 in a process
  started with PYTHONHASHSEED=1 and 545 in one started with PYTHONHASHSEED=2. With a
  generator whose streams differ between these seeds, the two processes return different
  series for AAPL and a lookback of 252 at the same clock readings.
\<close>

theorem C1_seed_depends_on_process:
  "(\<not> isl (fst (Robust_generate_sample_data p symbol days w))
      \<longrightarrow> tape (rng (snd (Robust_generate_sample_data p symbol days w)))
           = mt19937 p (nat (str_hash p symbol mod 1000)))
   \<and> nat (str_hash (ex_env cpython_hash_1) ''AAPL'' mod 1000) = 889
   \<and> nat (str_hash (ex_env cpython_hash_2) ''AAPL'' mod 1000) = 545
   \<and> fst (Robust_generate_sample_data (ex_env cpython_hash_1) ''AAPL'' 252 (ex_world tuesday_noon))
       \<noteq> fst (Robust_generate_sample_data (ex_env cpython_hash_2) ''AAPL'' 252 (ex_world tuesday_noon))"
proof -
  have a: "nat (str_hash (ex_env cpython_hash_1) ''AAPL'' mod 1000) = 889"
    by (simp add: ex_env_def cpython_hash_1_def)
  have b: "nat (str_hash (ex_env cpython_hash_2) ''AAPL'' mod 1000) = 545"
    by (simp add: ex_env_def cpython_hash_2_def)
  have t: "\<not> isl (fst (Robust_generate_sample_data p symbol days w))
      \<longrightarrow> tape (rng (snd (Robust_generate_sample_data p symbol days w)))
           = mt19937 p (nat (str_hash p symbol mod 1000))"
  proof
    assume r: "\<not> isl (fst (Robust_generate_sample_data p symbol days w))"
    have "lookback_supported days w"
      using r Robust_generate_unsupported(1) [of days w p symbol] by blast
    then show "tape (rng (snd (Robust_generate_sample_data p symbol days w)))
           = mt19937 p (nat (str_hash p symbol mod 1000))"
      by (rule Robust_generate_tape)
  qed
  show ?thesis using t a b tuesday_252_differs by (intro conjI)
qed

theorem C1_seed_depends_on_process_witness:
  "\<not> isl (fst (Robust_generate_sample_data (ex_env cpython_hash_1) ''AAPL'' 252 (ex_world tuesday_noon)))
   \<and> tape (rng (snd (Robust_generate_sample_data (ex_env cpython_hash_1) ''AAPL'' 252
              (ex_world tuesday_noon)))) = mt19937 (ex_env cpython_hash_1) 889"
proof -
  note c = C1_seed_depends_on_process [where p = "ex_env cpython_hash_1" and symbol = "''AAPL''"
      and days = 252 and w = "ex_world tuesday_noon"]
  have r: "\<not> isl (fst (Robust_generate_sample_data (ex_env cpython_hash_1) ''AAPL'' 252
              (ex_world tuesday_noon)))"
    by (rule tuesday_252_returned)
  from c r have "tape (rng (snd (Robust_generate_sample_data (ex_env cpython_hash_1) ''AAPL'' 252
              (ex_world tuesday_noon))))
      = mt19937 (ex_env cpython_hash_1) (nat (str_hash (ex_env cpython_hash_1) ''AAPL'' mod 1000))"
    by blast
  moreover from c have "nat (str_hash (ex_env cpython_hash_1) ''AAPL'' mod 1000) = 889" by blast
  ultimately show ?thesis using r by simp
qed

text \<open>
  C6. \<^verbatim>\<open>RobustDataFetcher.generate_sample_data\<close> tells two symbols other than SPY apart
  by the seed \<open>hash(symbol) mod 1000\<close> alone, and two symbols can share it. In a process
  started with PYTHONHASHSEED=340 the seed is 275 for AAPL and for MSFT, and the two calls
  with lookback 252 at the same clock readings return a frame, the same for both. In a
  process started with PYTHONHASHSEED=1 the seeds are 889 and 12 and, with a generator
  whose streams differ between these seeds, the two frames differ.
\<close>

theorem C6_equal_seeds_equal_series:
  "nat (str_hash (ex_env cpython_hash_340) ''AAPL'' mod 1000) = 275
   \<and> nat (str_hash (ex_env cpython_hash_340) ''MSFT'' mod 1000) = 275
   \<and> Robust_generate_sample_data (ex_env cpython_hash_340) ''AAPL'' 252 (ex_world tuesday_noon)
       = Robust_generate_sample_data (ex_env cpython_hash_340) ''MSFT'' 252 (ex_world tuesday_noon)
   \<and> \<not> isl (fst (Robust_generate_sample_data (ex_env cpython_hash_340) ''AAPL'' 252
                   (ex_world tuesday_noon)))
   \<and> nat (str_hash (ex_env cpython_hash_1) ''AAPL'' mod 1000) = 889
   \<and> nat (str_hash (ex_env cpython_hash_1) ''MSFT'' mod 1000) = 12
   \<and> fst (Robust_generate_sample_data (ex_env cpython_hash_1) ''AAPL'' 252 (ex_world tuesday_noon))
       \<noteq> fst (Robust_generate_sample_data (ex_env cpython_hash_1) ''MSFT'' 252 (ex_world tuesday_noon))"
proof -
  have a: "nat (str_hash (ex_env cpython_hash_340) ''AAPL'' mod 1000) = 275"
    by (simp add: ex_env_def cpython_hash_340_def)
  have m: "nat (str_hash (ex_env cpython_hash_340) ''MSFT'' mod 1000) = 275"
    by (simp add: ex_env_def cpython_hash_340_def)
  have h: "str_hash (ex_env cpython_hash_340) ''AAPL'' mod 1000
         = str_hash (ex_env cpython_hash_340) ''MSFT'' mod 1000"
    by (simp add: ex_env_def cpython_hash_340_def)
  have s: "(''AAPL'' = ''SPY'') = (''MSFT'' = ''SPY'')" by simp
  have e: "Robust_generate_sample_data (ex_env cpython_hash_340) ''AAPL'' 252 (ex_world tuesday_noon)
       = Robust_generate_sample_data (ex_env cpython_hash_340) ''MSFT'' 252 (ex_world tuesday_noon)"
    by (rule Robust_generate_same_seed [OF h s])
  have r: "\<not> isl (fst (Robust_generate_sample_data (ex_env cpython_hash_340) ''AAPL'' 252
                   (ex_world tuesday_noon)))"
    by (rule tuesday_252_returned)
  have a1: "nat (str_hash (ex_env cpython_hash_1) ''AAPL'' mod 1000) = 889"
    by (simp add: ex_env_def cpython_hash_1_def)
  have m1: "nat (str_hash (ex_env cpython_hash_1) ''MSFT'' mod 1000) = 12"
    by (simp add: ex_env_def cpython_hash_1_def)
  show ?thesis using a m e r a1 m1 tuesday_252_symbols_differ by (intro conjI)
qed

end
